theory Spec2Isabelle
  imports Main
begin

section \<open>Data model of the client\<close>

text \<open>
  An \<open>AgentEvent\<close> as the client holds it. The field \<open>type\<close> is a string that the code
  compares with literals; the timestamp is a JavaScript \<open>Date\<close>. The record is
  polymorphic in the timestamp so that the same shape serves for the JSON object on the
  wire (timestamp still unparsed) and for the client's value (timestamp a \<open>Date\<close>).
\<close>

record 'ts event =
  id_ev :: string
  type_ev :: string
  agent :: string
  content :: string
  metadata :: "(string \<times> string) list"
  timestamp :: 'ts

section \<open>Grouping for display: \<open>groupRunnerEvents\<close>\<close>

text \<open>
  The inner \<open>while\<close> loop of \<open>groupRunnerEvents\<close>: starting right after a
  \<open>tool_call\<close> of agent \<open>a\<close>, it pushes events onto the group as long as they are
  \<open>tool_output\<close> events of the same agent. It returns the pushed events and the
  events from index \<open>j\<close> on.
\<close>

fun take_outputs :: "string \<Rightarrow> 'ts event list \<Rightarrow> 'ts event list \<times> 'ts event list" where
  "take_outputs a [] = ([], [])"
| "take_outputs a (x # xs) =
     (if type_ev x = ''tool_output'' \<and> agent x = a
      then (case take_outputs a xs of (g, r) \<Rightarrow> (x # g, r))
      else ([], x # xs))"

lemma take_outputs_length: "length (snd (take_outputs a xs)) \<le> length xs"
  by (induction xs) (auto split: prod.splits)

text \<open>
  The outer \<open>for\<close> loop: a \<open>tool_call\<close> opens a group that takes the following
  outputs, and the loop continues at index \<open>j\<close>; any other event is pushed as a
  group of its own.
\<close>

function groupRunnerEvents :: "'ts event list \<Rightarrow> 'ts event list list" where
  "groupRunnerEvents [] = []"
| "groupRunnerEvents (current # rest) =
     (if type_ev current = ''tool_call''
      then (current # fst (take_outputs (agent current) rest))
             # groupRunnerEvents (snd (take_outputs (agent current) rest))
      else [current] # groupRunnerEvents rest)"
  by pat_completeness auto
termination
  by (relation "measure length") (auto simp: take_outputs_length less_Suc_eq_le)


section \<open>The progress staleness filter: \<open>normalizeEvents\<close>\<close>

text \<open>
  A JavaScript number as the filter meets it: the time value of a \<open>Date\<close> is an integer
  number of milliseconds, or \<open>NaN\<close> for an invalid \<open>Date\<close>. \<open>None\<close> stands for
  \<open>NaN\<close>. Time values lie within \<open>8.64e15\<close> of zero, where doubles are exact on
  integers; a difference of two of them is rounded only when it is far above 15000, so
  integer arithmetic decides every comparison as the code does.
\<close>

type_synonym jsnum = "int option"

text \<open>\<open>Math.max(a, b)\<close>: \<open>NaN\<close> as soon as one argument is.\<close>

fun Math_max :: "jsnum \<Rightarrow> jsnum \<Rightarrow> jsnum" where
  "Math_max (Some a) (Some b) = Some (max a b)"
| "Math_max _ _ = None"

text \<open>Truthiness of a number: \<open>0\<close> and \<open>NaN\<close> are falsy.\<close>

fun truthy :: "jsnum \<Rightarrow> bool" where
  "truthy None = False"
| "truthy (Some a) = (a \<noteq> 0)"

text \<open>\<open>a < b\<close> and \<open>a > b\<close>: false as soon as one side is \<open>NaN\<close>.\<close>

fun js_less :: "jsnum \<Rightarrow> jsnum \<Rightarrow> bool" where
  "js_less (Some a) (Some b) = (a < b)"
| "js_less _ _ = False"

fun js_greater :: "jsnum \<Rightarrow> jsnum \<Rightarrow> bool" where
  "js_greater (Some a) (Some b) = (a > b)"
| "js_greater _ _ = False"

fun js_minus :: "jsnum \<Rightarrow> jsnum \<Rightarrow> jsnum" where
  "js_minus (Some a) (Some b) = Some (a - b)"
| "js_minus _ _ = None"

text \<open>The client's event: the timestamp is a \<open>Date\<close>, held as its time value.\<close>

type_synonym AgentEvent = "jsnum event"

definition getTime :: "AgentEvent \<Rightarrow> jsnum" where
  "getTime e = timestamp e"

text \<open>
  \<open>latestNonProgress\<close>: the \<open>reduce\<close> over the events that are not
  \<open>progress_update\<close>, from the initial value \<open>0\<close>.
\<close>

definition latestNonProgress :: "AgentEvent list \<Rightarrow> jsnum" where
  "latestNonProgress items =
     foldl (\<lambda>mx e. Math_max mx (getTime e))
       (Some 0) (filter (\<lambda>e. type_ev e \<noteq> ''progress_update'') items)"

text \<open>
  The predicate of the second \<open>filter\<close>, with \<open>now\<close> the reading of \<open>Date.now()\<close>
  and \<open>lnp\<close> the value of \<open>latestNonProgress\<close>.
\<close>

definition keep_event :: "int \<Rightarrow> jsnum \<Rightarrow> AgentEvent \<Rightarrow> bool" where
  "keep_event now lnp e =
     (if type_ev e \<noteq> ''progress_update'' then True
      else let ts = getTime e in
        if truthy lnp \<and> js_less ts lnp then False
        else if js_greater (js_minus (Some now) ts) (Some 15000) then False
        else True)"

definition normalizeEvents :: "int \<Rightarrow> AgentEvent list \<Rightarrow> AgentEvent list" where
  "normalizeEvents now items =
     (if items = [] then items
      else filter (keep_event now (latestNonProgress items)) items)"

section \<open>The runner-event filter of \<open>AgentPanel\<close>\<close>

definition runnerEvents :: "'ts event list \<Rightarrow> 'ts event list" where
  "runnerEvents events =
     filter (\<lambda>e. type_ev e \<noteq> ''message'' \<and> type_ev e \<noteq> ''progress_update'') events"

text \<open>The client pipeline up to the cards of the runner output.\<close>

definition grouped_display :: "int \<Rightarrow> AgentEvent list \<Rightarrow> AgentEvent list list" where
  "grouped_display now items = groupRunnerEvents (runnerEvents (normalizeEvents now items))"

section \<open>Snapshots, client state and the two snapshot reads\<close>

text \<open>
  Modelled from the spec: the declarations of \<open>Agent\<close> and \<open>GuardrailCheck\<close>
  (the module \<open>lib/types\<close> is not among the source files). The spec gives the wire
  shapes \<open>{name, description, input_guardrails[], tools[], handoffs[]}\<close> and
  \<open>{id, name, agent, verdict, timestamp}\<close>. The client code only passes agents on
  and only touches the timestamp of a guardrail check.
\<close>

record Agent =
  name :: string
  description :: string
  input_guardrails :: "string list"
  tools :: "string list"
  handoffs :: "string list"

record 'ts guardrail_check =
  id_gc :: string
  name_gc :: string
  agent_gc :: string
  verdict_gc :: bool
  timestamp_gc :: 'ts

type_synonym GuardrailCheck = "jsnum guardrail_check"

text \<open>
  A timestamp as it arrives in JSON: \<open>None\<close> when the property is \<open>null\<close> or
  missing, otherwise \<open>Some d\<close> with \<open>d\<close> the time value that \<open>new Date(v)\<close> gives
  the JSON value \<open>v\<close> (\<open>NaN\<close> when \<open>v\<close> does not parse).
\<close>

type_synonym wire_time = "jsnum option"

text \<open>\<open>new Date(e.timestamp ?? Date.now())\<close>, with \<open>now\<close> the reading of the clock.\<close>

definition toDate :: "int \<Rightarrow> wire_time \<Rightarrow> jsnum" where
  "toDate now w = (case w of None \<Rightarrow> Some now | Some d \<Rightarrow> d)"

text \<open>\<open>{...e, timestamp: new Date(...)}\<close>: every other property is copied.\<close>

definition withDate :: "int \<Rightarrow> wire_time event \<Rightarrow> AgentEvent" where
  "withDate now e =
     \<lparr>id_ev = id_ev e, type_ev = type_ev e, agent = agent e, content = content e,
      metadata = metadata e, timestamp = toDate now (timestamp e)\<rparr>"

definition withDate_gc :: "int \<Rightarrow> wire_time guardrail_check \<Rightarrow> GuardrailCheck" where
  "withDate_gc now g =
     \<lparr>id_gc = id_gc g, name_gc = name_gc g, agent_gc = agent_gc g,
      verdict_gc = verdict_gc g, timestamp_gc = toDate now (timestamp_gc g)\<rparr>"

text \<open>
  The \<open>map\<close> over a delivered array. \<open>Date.now()\<close> is read once for each element
  that lacks a timestamp, so the clock is a function of the element's index.
\<close>

definition withDates :: "(nat \<Rightarrow> int) \<Rightarrow> wire_time event list \<Rightarrow> AgentEvent list" where
  "withDates clock es = map (\<lambda>(i, e). withDate (clock i) e) (enumerate 0 es)"

definition withDates_gc ::
  "(nat \<Rightarrow> int) \<Rightarrow> wire_time guardrail_check list \<Rightarrow> GuardrailCheck list" where
  "withDates_gc clock gs = map (\<lambda>(i, g). withDate_gc (clock i) g) (enumerate 0 gs)"

text \<open>
  The parsed JSON body of a snapshot. The code reads it as \<open>any\<close>: a property is
  \<open>None\<close> here when it is missing or fails the test the code applies to it
  (\<open>Array.isArray\<close> for the arrays, truthiness for the context object).
\<close>

record snapshot =
  thread_id :: "string option"
  current_agent :: "string option"
  agents_j :: "Agent list option"
  context_j :: "(string \<times> string) list option"
  events_j :: "wire_time event list option"
  guardrails_j :: "wire_time guardrail_check list option"

text \<open>
  The HTTP side. A request either throws (network error) or yields a response with its
  \<open>ok\<close> flag and a body; the body either fails to parse as JSON, or is a falsy JSON
  value (\<open>Json None\<close>, for instance \<open>null\<close>), or is an object.
\<close>

datatype request = GetState string | GetBootstrap

datatype body = Unparsable | Json "snapshot option"

datatype response = NetworkError | Response bool body

text \<open>
  The outcome of an \<open>async\<close> function. \<open>return res.json()\<close> inside the \<open>try\<close> is
  not awaited there, so a body that does not parse rejects the returned promise and the
  \<open>catch\<close> does not see it.
\<close>

datatype 'a promise = Rejected | Resolved 'a

definition fetchThreadState :: "(request \<Rightarrow> response) \<Rightarrow> string \<Rightarrow> snapshot option promise" where
  "fetchThreadState server threadId =
     (case server (GetState threadId) of
        NetworkError \<Rightarrow> Resolved None
      | Response ok b \<Rightarrow>
          if \<not> ok then Resolved None
          else (case b of Unparsable \<Rightarrow> Rejected | Json data \<Rightarrow> Resolved data))"

definition fetchBootstrapState :: "(request \<Rightarrow> response) \<Rightarrow> snapshot option promise" where
  "fetchBootstrapState server =
     (case server GetBootstrap of
        NetworkError \<Rightarrow> Resolved None
      | Response ok b \<Rightarrow>
          if \<not> ok then Resolved None
          else (case b of Unparsable \<Rightarrow> Rejected | Json data \<Rightarrow> Resolved data))"

text \<open>The React state of \<open>Home\<close>.\<close>

record client_state =
  agents :: "Agent list"
  events :: "AgentEvent list"
  currentAgent :: string
  guardrails :: "GuardrailCheck list"
  context_c :: "(string \<times> string) list"
  threadId :: "string option"
  initialThreadId :: "string option"

text \<open>\<open>x || ""\<close> on a string property and \<open>x || null\<close>: the empty string is falsy.\<close>

definition or_empty :: "string option \<Rightarrow> string" where
  "or_empty x = (case x of None \<Rightarrow> [] | Some s \<Rightarrow> s)"

definition or_null :: "string option \<Rightarrow> string option" where
  "or_null x = (case x of None \<Rightarrow> None | Some s \<Rightarrow> if s = [] then None else Some s)"

text \<open>The state updates of \<open>hydrateState\<close> once the snapshot \<open>data\<close> is there.\<close>

definition hydrate_apply ::
  "(nat \<Rightarrow> int) \<Rightarrow> (nat \<Rightarrow> int) \<Rightarrow> snapshot \<Rightarrow> client_state \<Rightarrow> client_state" where
  "hydrate_apply clock clock_gc data st =
     (let st1 = st\<lparr>currentAgent := or_empty (current_agent data)\<rparr>;
          st2 = st1\<lparr>context_c := (case context_j data of None \<Rightarrow> [] | Some c \<Rightarrow> c)\<rparr>;
          st3 = (case agents_j data of None \<Rightarrow> st2 | Some a \<Rightarrow> st2\<lparr>agents := a\<rparr>);
          st4 = (case events_j data of None \<Rightarrow> st3
                 | Some es \<Rightarrow> st3\<lparr>events := withDates clock es\<rparr>)
      in (case guardrails_j data of None \<Rightarrow> st4
          | Some gs \<Rightarrow> st4\<lparr>guardrails := withDates_gc clock_gc gs\<rparr>))"

text \<open>
  \<open>hydrateState\<close>: the new state and the requests it sent. A \<open>null\<close> or empty id
  returns at once; a \<open>null\<close> result of the fetch, or a rejected one, leaves the state
  as it was.
\<close>

definition hydrateState ::
  "(request \<Rightarrow> response) \<Rightarrow> (nat \<Rightarrow> int) \<Rightarrow> (nat \<Rightarrow> int) \<Rightarrow> string option
     \<Rightarrow> client_state \<Rightarrow> client_state \<times> request list" where
  "hydrateState server clock clock_gc id' st =
     (case or_null id' of
        None \<Rightarrow> (st, [])
      | Some i \<Rightarrow>
          (case fetchThreadState server i of
             Rejected \<Rightarrow> (st, [GetState i])
           | Resolved None \<Rightarrow> (st, [GetState i])
           | Resolved (Some data) \<Rightarrow> (hydrate_apply clock clock_gc data st, [GetState i])))"

text \<open>The state updates of the bootstrap effect once the snapshot is there.\<close>

definition bootstrap_apply ::
  "(nat \<Rightarrow> int) \<Rightarrow> int \<Rightarrow> (nat \<Rightarrow> int) \<Rightarrow> snapshot \<Rightarrow> client_state \<Rightarrow> client_state" where
  "bootstrap_apply clock now clock_gc bootstrap st =
     (let st1 = st\<lparr>initialThreadId := or_null (thread_id bootstrap)\<rparr>;
          st2 = st1\<lparr>threadId := or_null (thread_id bootstrap)\<rparr>;
          st3 = (case or_null (current_agent bootstrap) of None \<Rightarrow> st2
                 | Some a \<Rightarrow> st2\<lparr>currentAgent := a\<rparr>);
          st4 = (case agents_j bootstrap of None \<Rightarrow> st3 | Some a \<Rightarrow> st3\<lparr>agents := a\<rparr>);
          st5 = (case context_j bootstrap of None \<Rightarrow> st4 | Some c \<Rightarrow> st4\<lparr>context_c := c\<rparr>);
          st6 = (case events_j bootstrap of None \<Rightarrow> st5
                 | Some es \<Rightarrow> st5\<lparr>events := normalizeEvents now (withDates clock es)\<rparr>)
      in (case guardrails_j bootstrap of None \<Rightarrow> st6
          | Some gs \<Rightarrow> st6\<lparr>guardrails := withDates_gc clock_gc gs\<rparr>))"

text \<open>The effect that runs once when \<open>Home\<close> mounts.\<close>

definition bootstrap_effect ::
  "(request \<Rightarrow> response) \<Rightarrow> (nat \<Rightarrow> int) \<Rightarrow> int \<Rightarrow> (nat \<Rightarrow> int)
     \<Rightarrow> client_state \<Rightarrow> client_state \<times> request list" where
  "bootstrap_effect server clock now clock_gc st =
     (case fetchBootstrapState server of
        Rejected \<Rightarrow> (st, [GetBootstrap])
      | Resolved None \<Rightarrow> (st, [GetBootstrap])
      | Resolved (Some bootstrap) \<Rightarrow>
          (bootstrap_apply clock now clock_gc bootstrap st, [GetBootstrap]))"

section \<open>The delta channel: \<open>ChatKitPanel.onEffect\<close> as \<open>Home\<close> wires it\<close>

text \<open>
  An effect pushed by the server: its name and its \<open>data\<close> object, which for
  \<open>runner_event_delta\<close> holds the batch of events and for \<open>runner_bind_thread\<close>
  the thread id.
\<close>

record effect_data =
  events_d :: "wire_time event list option"
  thread_id_d :: "string option"

record effect =
  name_e :: string
  data_e :: "effect_data option"

text \<open>
  The three callbacks of \<open>ChatKitPanelProps\<close> that \<open>onEffect\<close> calls, each optional.
  A callback is a function on the state of the component that passes it.
\<close>

record ChatKitPanelProps =
  onRunnerUpdate :: "(client_state \<Rightarrow> client_state) option"
  onRunnerEventDelta :: "(wire_time event list \<Rightarrow> client_state \<Rightarrow> client_state) option"
  onRunnerBindThread :: "(string \<Rightarrow> client_state \<Rightarrow> client_state) option"

text \<open>
  \<open>onEffect\<close> destructures only \<open>name\<close> from the effect. The batch and the thread id
  are read from \<open>arguments[0].data\<close>; \<open>onEffect\<close> is an arrow function, so
  \<open>arguments\<close> is that of the enclosing function. The model takes the value of
  \<open>arguments[0].data\<close> as the parameter \<open>arg0_data\<close> and the properties hold for each
  of its values.
\<close>

definition onEffect ::
  "ChatKitPanelProps \<Rightarrow> effect_data option \<Rightarrow> effect \<Rightarrow> client_state \<Rightarrow> client_state" where
  "onEffect props arg0_data eff st =
     (let st1 = (if name_e eff = ''runner_state_update''
                 then (case onRunnerUpdate props of None \<Rightarrow> st | Some f \<Rightarrow> f st)
                 else st);
          st2 = (if name_e eff = ''runner_event_delta''
                 then (case onRunnerEventDelta props of None \<Rightarrow> st1
                       | Some f \<Rightarrow>
                           f (case Option.bind arg0_data events_d of None \<Rightarrow> [] | Some es \<Rightarrow> es)
                             st1)
                 else st1)
      in (if name_e eff = ''runner_bind_thread''
          then (case or_null (Option.bind arg0_data thread_id_d) of None \<Rightarrow> st2
                | Some tid \<Rightarrow>
                    (case onRunnerBindThread props of None \<Rightarrow> st2 | Some f \<Rightarrow> f tid st2))
          else st2))"

definition handleBindThread :: "string \<Rightarrow> client_state \<Rightarrow> client_state" where
  "handleBindThread id' st = st\<lparr>threadId := Some id'\<rparr>"

text \<open>
  The props that \<open>Home\<close> passes to \<open>ChatKitPanel\<close>: of the three callbacks only
  \<open>onRunnerBindThread\<close> is given.
\<close>

definition Home_props :: ChatKitPanelProps where
  "Home_props =
     \<lparr>onRunnerUpdate = None, onRunnerEventDelta = None,
      onRunnerBindThread = Some handleBindThread\<rparr>"

section \<open>The orchestration engine's tool call\<close>

text \<open>
  Modelled from the spec: the orchestration engine and its event log (the backend is not
  among the source files). The spec says of a tool call that the engine appends a
  \<open>tool_call\<close> event (metadata: tool name, arguments) before invoking the external
  tool executor, then appends exactly one \<open>tool_output\<close> event (metadata: result, or
  an error payload) after completion or timeout, also on failure, attributed to the same
  agent; that progress signalling may run while the tool executes; that tool execution
  is time-bounded and exceeding the bound is an error outcome; that an unexpected
  internal fault mid-turn appends a terminal \<open>message\<close> event and releases the turn
  lock; that a client disconnect or explicit stop mid-turn leaves no \<open>tool_call\<close>
  without its \<open>tool_output\<close>; and that at most one turn runs on a thread at a time.
\<close>
















section \<open>Predicates and sample values used in the properties\<close>

text \<open>
  A well-formed group: not empty, and either a \<open>tool_call\<close> followed only by
  \<open>tool_output\<close> events of the same agent, or a single event that is not a
  \<open>tool_call\<close>.
\<close>

fun run_ok :: "'ts event list \<Rightarrow> bool" where
  "run_ok [] = False"
| "run_ok (e # es) =
     (if type_ev e = ''tool_call''
      then list_all (\<lambda>x. type_ev x = ''tool_output'' \<and> agent x = agent e) es
      else es = [])"

text \<open>
  \<open>extends g g'\<close>: the group \<open>g\<close> opens with a \<open>tool_call\<close> and the next group
  \<open>g'\<close> opens with a \<open>tool_output\<close> of the same agent, so \<open>g\<close> is not maximal.
\<close>

fun extends :: "'ts event list \<Rightarrow> 'ts event list \<Rightarrow> bool" where
  "extends (e # es) (x # xs) =
     (type_ev e = ''tool_call'' \<and> type_ev x = ''tool_output'' \<and> agent x = agent e)"
| "extends _ _ = False"

fun maximal_runs :: "'ts event list list \<Rightarrow> bool" where
  "maximal_runs (g # g' # gs) = (\<not> extends g g' \<and> maximal_runs (g' # gs))"
| "maximal_runs _ = True"

text \<open>Every timestamp of the list is a valid \<open>Date\<close>.\<close>

definition valid_times :: "AgentEvent list \<Rightarrow> bool" where
  "valid_times items = list_all (\<lambda>e. timestamp e \<noteq> None) items"

text \<open>\<open>P\<close> holds of the time value of every event that is not a \<open>progress_update\<close>.\<close>

definition nonprogress_all :: "(int \<Rightarrow> bool) \<Rightarrow> AgentEvent list \<Rightarrow> bool" where
  "nonprogress_all P items =
     list_all (\<lambda>e. type_ev e = ''progress_update'' \<or>
                 (case timestamp e of None \<Rightarrow> False | Some t \<Rightarrow> P t)) items"

text \<open>
  The retention rule as the spec words it: the timestamp is at least the maximum \<open>M\<close>
  of the timestamps of the other events, that is at least each of them, and the age is
  below 15 seconds.
\<close>

definition retained_spec :: "int \<Rightarrow> AgentEvent list \<Rightarrow> AgentEvent \<Rightarrow> bool" where
  "retained_spec now items e =
     (case timestamp e of None \<Rightarrow> False
      | Some ts \<Rightarrow> nonprogress_all (\<lambda>t. t \<le> ts) items \<and> now - ts < 15000)"

text \<open>
  The retention rule that the filter implements: the comparison with \<open>M\<close> is passed
  also when no other event has a time value above \<open>0\<close>, and the age may reach
  15 seconds.
\<close>

definition retained :: "int \<Rightarrow> AgentEvent list \<Rightarrow> AgentEvent \<Rightarrow> bool" where
  "retained now items e =
     (case timestamp e of None \<Rightarrow> False
      | Some ts \<Rightarrow>
          (nonprogress_all (\<lambda>t. t \<le> 0) items \<or> nonprogress_all (\<lambda>t. t \<le> ts) items)
          \<and> now - ts \<le> 15000)"

definition progress_count :: "'ts event list \<Rightarrow> nat" where
  "progress_count es = length (filter (\<lambda>e. type_ev e = ''progress_update'') es)"

text \<open>Sample events: id, type, agent and timestamp given, content and metadata empty.\<close>

definition sample :: "string \<Rightarrow> string \<Rightarrow> string \<Rightarrow> 'ts \<Rightarrow> 'ts event" where
  "sample i ty a t =
     \<lparr>id_ev = i, type_ev = ty, agent = a, content = [], metadata = [], timestamp = t\<rparr>"

definition progress_at :: "string \<Rightarrow> int \<Rightarrow> AgentEvent" where
  "progress_at i t = sample i ''progress_update'' ''A'' (Some t)"


text \<open>A client bound to thread \<open>t1\<close> that shows one tool call.\<close>

definition bound_state :: client_state where
  "bound_state =
     \<lparr>agents = [], events = [sample ''e1'' ''tool_call'' ''Triage'' (Some 1000)],
      currentAgent = ''Triage'', guardrails = [], context_c = [(''seat'', ''14C'')],
      threadId = Some ''t1'', initialThreadId = Some ''t1''\<rparr>"

text \<open>A snapshot whose only event is a \<open>progress_update\<close> stamped at time value 0.\<close>

definition old_progress_snapshot :: snapshot where
  "old_progress_snapshot =
     \<lparr>thread_id = Some ''t1'', current_agent = Some ''Triage'', agents_j = Some [],
      context_j = Some [],
      events_j = Some [sample ''p1'' ''progress_update'' ''Triage'' (Some (Some 0))],
      guardrails_j = Some []\<rparr>"


text \<open>A server that does not know the thread: 404 on the state read, a snapshot on bootstrap.\<close>

fun unknown_thread_server :: "request \<Rightarrow> response" where
  "unknown_thread_server (GetState i) = Response False (Json None)"
| "unknown_thread_server GetBootstrap = Response True (Json (Some old_progress_snapshot))"

text \<open>A server that cannot be reached on the state read and answers 500 on bootstrap.\<close>

fun failing_server :: "request \<Rightarrow> response" where
  "failing_server (GetState i) = NetworkError"
| "failing_server GetBootstrap = Response False Unparsable"

text \<open>A \<open>runner_event_delta\<close> effect carrying a batch.\<close>

definition delta_effect :: "wire_time event list \<Rightarrow> effect" where
  "delta_effect batch =
     \<lparr>name_e = ''runner_event_delta'',
      data_e = Some \<lparr>events_d = Some batch, thread_id_d = None\<rparr>\<rparr>"

text \<open>A clock that reads \<open>t\<close> at every index.\<close>

definition fixed_clock :: "int \<Rightarrow> nat \<Rightarrow> int" where
  "fixed_clock t i = t"

text \<open>
  The three events of the spec's example: a tool call of agent \<open>A\<close>, a
  \<open>progress_update\<close> stamped at 0, and the output of agent \<open>A\<close> with result
  \<open>ok\<close>; the call is stamped at 0 and the output at 50 ms.
\<close>

definition example_call :: AgentEvent where
  "example_call = sample ''1'' ''tool_call'' ''A'' (Some 0)"

definition example_progress :: AgentEvent where
  "example_progress = progress_at ''p'' 0"

definition example_output :: AgentEvent where
  "example_output =
     \<lparr>id_ev = ''1'', type_ev = ''tool_output'', agent = ''A'', content = [],
      metadata = [(''tool_result'', ''ok'')], timestamp = Some 50\<rparr>"

text \<open>A batch of one event as it arrives on the delta channel.\<close>

definition example_batch :: "wire_time event list" where
  "example_batch = [sample ''e7'' ''tool_call'' ''A'' (Some (Some 1000))]"




text \<open>A progress update is fresh when it is at most 15 seconds old.\<close>

definition fresh :: "int \<Rightarrow> AgentEvent \<Rightarrow> bool" where
  "fresh now e = (case timestamp e of None \<Rightarrow> False | Some ts \<Rightarrow> now - ts \<le> 15000)"

section \<open>Properties of the grouping\<close>

lemma take_outputs_append: "fst (take_outputs a xs) @ snd (take_outputs a xs) = xs"
  by (induction xs) (auto split: prod.splits)

lemma concat_groupRunnerEvents: "concat (groupRunnerEvents es) = es"
  by (induction es rule: groupRunnerEvents.induct) (auto simp: take_outputs_append)

lemma take_outputs_all:
  "list_all (\<lambda>x. type_ev x = ''tool_output'' \<and> agent x = a) (fst (take_outputs a xs))"
  by (induction xs) (auto split: prod.splits)

lemma take_outputs_rest:
  "snd (take_outputs a xs) = y # ys \<Longrightarrow> \<not> (type_ev y = ''tool_output'' \<and> agent y = a)"
  by (induction xs) (auto split: prod.splits if_splits)

lemma take_outputs_prefix:
  "list_all (\<lambda>x. type_ev x = ''tool_output'' \<and> agent x = a) p \<Longrightarrow>
   (case q of [] \<Rightarrow> True | y # _ \<Rightarrow> \<not> (type_ev y = ''tool_output'' \<and> agent y = a)) \<Longrightarrow>
   take_outputs a (p @ q) = (p, q)"
  by (induction p) (auto split: list.splits)

lemma groups_run_ok: "list_all run_ok (groupRunnerEvents es)"
  by (induction es rule: groupRunnerEvents.induct) (auto simp: take_outputs_all)

lemma groups_Cons: "\<exists>t gs. groupRunnerEvents (y # ys) = (y # t) # gs"
  by simp

lemma groups_maximal: "maximal_runs (groupRunnerEvents es)"
proof (induction es rule: groupRunnerEvents.induct)
  case 1
  then show ?case by simp
next
  case (2 current rest)
  show ?case
  proof (cases "type_ev current = ''tool_call''")
    case True
    let ?r = "snd (take_outputs (agent current) rest)"
    have ih: "maximal_runs (groupRunnerEvents ?r)" using 2 True by simp
    show ?thesis
    proof (cases ?r)
      case Nil
      then show ?thesis using True by simp
    next
      case (Cons y ys)
      obtain t gs where g: "groupRunnerEvents (y # ys) = (y # t) # gs"
        using groups_Cons by blast
      have "\<not> (type_ev y = ''tool_output'' \<and> agent y = agent current)"
        using take_outputs_rest[OF Cons] .
      then show ?thesis using True ih Cons g by simp
    qed
  next
    case False
    have ih: "maximal_runs (groupRunnerEvents rest)" using 2 False by simp
    show ?thesis
    proof (cases rest)
      case Nil
      then show ?thesis using False by simp
    next
      case (Cons y ys)
      obtain t gs where g: "groupRunnerEvents (y # ys) = (y # t) # gs"
        using groups_Cons by blast
      then show ?thesis using False ih Cons by simp
    qed
  qed
qed

lemma maximal_runs_tl: "maximal_runs (g # gs) \<Longrightarrow> maximal_runs gs"
  by (cases gs) auto

text \<open>The three properties leave one grouping only.\<close>

lemma groups_unique:
  "concat gs = es \<Longrightarrow> list_all run_ok gs \<Longrightarrow> maximal_runs gs \<Longrightarrow> gs = groupRunnerEvents es"
proof (induction es arbitrary: gs rule: groupRunnerEvents.induct)
  case 1
  then show ?case by (cases gs) (auto elim: run_ok.elims)
next
  case (2 current rest)
  from "2.prems" obtain g gs' where gs: "gs = g # gs'"
    by (cases gs) auto
  with "2.prems" obtain e t where g: "g = e # t"
    by (cases g) auto
  from "2.prems" gs g have e: "e = current" and rest: "rest = t @ concat gs'"
    by auto
  have ok': "list_all run_ok gs'" and mx': "maximal_runs gs'"
    using "2.prems" gs maximal_runs_tl by auto
  show ?case
  proof (cases "type_ev current = ''tool_call''")
    case True
    have t: "list_all (\<lambda>x. type_ev x = ''tool_output'' \<and> agent x = agent current) t"
      using "2.prems" gs g e True by simp
    have q: "(case concat gs' of [] \<Rightarrow> True
              | y # _ \<Rightarrow> \<not> (type_ev y = ''tool_output'' \<and> agent y = agent current))"
    proof (cases gs')
      case Nil
      then show ?thesis by simp
    next
      case (Cons g' gs'')
      with ok' obtain x xs where g': "g' = x # xs" by (cases g') auto
      have "\<not> extends g g'" using "2.prems"(3) gs Cons by simp
      then show ?thesis using g g' e True Cons by simp
    qed
    have tk: "take_outputs (agent current) rest = (t, concat gs')"
      unfolding rest using take_outputs_prefix[OF t q] .
    have "gs' = groupRunnerEvents (snd (take_outputs (agent current) rest))"
      using "2.IH"(1)[OF True _ ok' mx'] tk by simp
    then show ?thesis using gs g e True tk by simp
  next
    case False
    have t: "t = []" using "2.prems" gs g e False by simp
    have "gs' = groupRunnerEvents rest"
      using "2.IH"(2)[OF False _ ok' mx'] rest t by simp
    then show ?thesis using gs g e False t by simp
  qed
qed

text \<open>
  C4. The grouping of a sequence is its partition, in order, into maximal runs: a list
  of groups is the result of \<open>groupRunnerEvents\<close> exactly when its concatenation is the
  input (every event in one group, order kept), each group is a \<open>tool_call\<close> followed
  by \<open>tool_output\<close> events of the same agent or a single other event, and no
  \<open>tool_call\<close> group could take the first event of the next group.
\<close>

theorem groupRunnerEvents_partition:
  "gs = groupRunnerEvents es \<longleftrightarrow> concat gs = es \<and> list_all run_ok gs \<and> maximal_runs gs"
  using concat_groupRunnerEvents groups_run_ok groups_maximal groups_unique by blast

text \<open>
  An instance: two outputs of agent \<open>A\<close> join the call of \<open>A\<close>, the output of
  \<open>B\<close> and the handoff stand alone.
\<close>

theorem groupRunnerEvents_partition_witness:
  "groupRunnerEvents
     [sample ''1'' ''tool_call'' ''A'' (), sample ''2'' ''tool_output'' ''A'' (),
      sample ''3'' ''tool_output'' ''A'' (), sample ''4'' ''tool_output'' ''B'' (),
      sample ''5'' ''handoff'' ''A'' ()]
   = [[sample ''1'' ''tool_call'' ''A'' (), sample ''2'' ''tool_output'' ''A'' (),
       sample ''3'' ''tool_output'' ''A'' ()],
      [sample ''4'' ''tool_output'' ''B'' ()],
      [sample ''5'' ''handoff'' ''A'' ()]]"
  (is "groupRunnerEvents ?es = ?gs")
proof -
  have h: "concat ?gs = ?es \<and> list_all run_ok ?gs \<and> maximal_runs ?gs"
    by (simp add: sample_def)
  have "?gs = groupRunnerEvents ?es"
    using groupRunnerEvents_partition[of ?gs ?es] h by (rule iffD2)
  then show ?thesis by (rule sym)
qed

text \<open>
  C6. Grouping is idempotent: flattening the groups and grouping again gives the same
  groups.
\<close>

theorem groupRunnerEvents_idempotent:
  "groupRunnerEvents (concat (groupRunnerEvents es)) = groupRunnerEvents es"
  by (simp add: concat_groupRunnerEvents)

section \<open>Properties of the progress staleness filter\<close>

lemma foldl_Math_max:
  "list_all (\<lambda>e. timestamp e \<noteq> None) xs \<Longrightarrow>
   \<exists>L. foldl (\<lambda>mx e. Math_max mx (getTime e)) (Some m) xs = Some L \<and> m \<le> L
       \<and> (\<forall>e\<in>set xs. \<forall>t. timestamp e = Some t \<longrightarrow> t \<le> L)
       \<and> (L = m \<or> (\<exists>e\<in>set xs. timestamp e = Some L))"
proof (induction xs arbitrary: m)
  case Nil
  then show ?case by simp
next
  case (Cons x xs)
  then obtain t where t: "timestamp x = Some t" by auto
  from Cons.prems have "list_all (\<lambda>e. timestamp e \<noteq> None) xs" by simp
  from Cons.IH[OF this, of "max m t"] obtain L where
    L: "foldl (\<lambda>mx e. Math_max mx (getTime e)) (Some (max m t)) xs = Some L"
       "max m t \<le> L" "\<forall>e\<in>set xs. \<forall>t. timestamp e = Some t \<longrightarrow> t \<le> L"
       "L = max m t \<or> (\<exists>e\<in>set xs. timestamp e = Some L)"
    by blast
  have "foldl (\<lambda>mx e. Math_max mx (getTime e)) (Some m) (x # xs) = Some L"
    using L(1) t by (simp add: getTime_def)
  moreover have "m \<le> L" using L(2) by simp
  moreover have "\<forall>e\<in>set (x # xs). \<forall>t. timestamp e = Some t \<longrightarrow> t \<le> L"
    using L(2,3) t by auto
  moreover have "L = m \<or> (\<exists>e\<in>set (x # xs). timestamp e = Some L)"
    using L(4) t by (auto simp: max_def split: if_splits)
  ultimately show ?case by blast
qed

text \<open>
  With valid timestamps \<open>latestNonProgress\<close> is a number: at least 0, at least every
  time value of a non-progress event, and either 0 or one of these time values.
\<close>

lemma latestNonProgress_valid:
  assumes "valid_times items"
  shows "\<exists>L. latestNonProgress items = Some L \<and> 0 \<le> L
       \<and> (\<forall>e\<in>set items. type_ev e \<noteq> ''progress_update'' \<longrightarrow>
             (\<forall>t. timestamp e = Some t \<longrightarrow> t \<le> L))
       \<and> (L = 0 \<or> (\<exists>e\<in>set items. type_ev e \<noteq> ''progress_update'' \<and> timestamp e = Some L))"
proof -
  have "list_all (\<lambda>e. timestamp e \<noteq> None)
          (filter (\<lambda>e. type_ev e \<noteq> ''progress_update'') items)"
    using assms by (auto simp: valid_times_def list_all_iff)
  from foldl_Math_max[OF this, of 0] show ?thesis
    unfolding latestNonProgress_def by auto
qed

lemma keep_event_valid:
  assumes v: "valid_times items" and p: "type_ev e = ''progress_update''"
    and e: "e \<in> set items"
  shows "keep_event now (latestNonProgress items) e = retained now items e"
proof -
  from latestNonProgress_valid[OF v] obtain L where
    L: "latestNonProgress items = Some L" "0 \<le> L"
       "\<forall>e\<in>set items. type_ev e \<noteq> ''progress_update'' \<longrightarrow>
          (\<forall>t. timestamp e = Some t \<longrightarrow> t \<le> L)"
       "L = 0 \<or> (\<exists>e\<in>set items. type_ev e \<noteq> ''progress_update'' \<and> timestamp e = Some L)"
    by blast
  from v e obtain ts where ts: "timestamp e = Some ts"
    by (auto simp: valid_times_def list_all_iff)
  have all_valid: "\<forall>e\<in>set items. \<exists>t. timestamp e = Some t"
    using v by (auto simp: valid_times_def list_all_iff)
  have A: "nonprogress_all (\<lambda>t. t \<le> 0) items \<longleftrightarrow> L = 0"
  proof
    assume a: "nonprogress_all (\<lambda>t. t \<le> 0) items"
    show "L = 0"
    proof (rule ccontr)
      assume "L \<noteq> 0"
      with L(4) obtain e' where
        "e' \<in> set items" "type_ev e' \<noteq> ''progress_update''" "timestamp e' = Some L"
        by blast
      with a have "L \<le> 0" by (auto simp: nonprogress_all_def list_all_iff)
      with L(2) \<open>L \<noteq> 0\<close> show False by simp
    qed
  next
    assume "L = 0"
    with L(3) all_valid show "nonprogress_all (\<lambda>t. t \<le> 0) items"
      by (fastforce simp: nonprogress_all_def list_all_iff)
  qed
  have B: "L \<le> ts \<Longrightarrow> nonprogress_all (\<lambda>t. t \<le> ts) items"
    using L(3) all_valid by (fastforce simp: nonprogress_all_def list_all_iff)
  have C: "nonprogress_all (\<lambda>t. t \<le> ts) items \<Longrightarrow> L = 0 \<or> L \<le> ts"
    using L(4) by (auto simp: nonprogress_all_def list_all_iff)
  have "keep_event now (Some L) e = ((L = 0 \<or> L \<le> ts) \<and> now - ts \<le> 15000)"
    using p ts by (auto simp: keep_event_def getTime_def)
  also have "\<dots> = retained now items e"
    using A B C ts by (auto simp: retained_def)
  finally show ?thesis using L(1) by simp
qed

lemma normalizeEvents_valid:
  assumes "valid_times items"
  shows "normalizeEvents now items =
         filter (\<lambda>e. type_ev e \<noteq> ''progress_update'' \<or> retained now items e) items"
proof -
  have "filter (keep_event now (latestNonProgress items)) items =
        filter (\<lambda>e. type_ev e \<noteq> ''progress_update'' \<or> retained now items e) items"
  proof (rule filter_cong[OF refl])
    fix e assume "e \<in> set items"
    then show "keep_event now (latestNonProgress items) e =
               (type_ev e \<noteq> ''progress_update'' \<or> retained now items e)"
      using keep_event_valid[OF assms _ \<open>e \<in> set items\<close>, of now]
      by (cases "type_ev e = ''progress_update''") (auto simp: keep_event_def)
  qed
  then show ?thesis by (simp add: normalizeEvents_def)
qed


text \<open>
  C1, as the code has it. For events with valid timestamps the filter keeps every event
  that is not a \<open>progress_update\<close>, in order, and keeps a \<open>progress_update\<close> exactly
  when its timestamp is at least \<open>M\<close>, the maximum timestamp of the other events, and
  its age \<open>now - timestamp\<close> is at most 15000 ms. It is dropped for age only when
  strictly older than 15 seconds, and the comparison with \<open>M\<close> is passed when no other
  event has a time value above 0 (none at all, or none after the epoch).
\<close>

theorem normalizeEvents_retention:
  assumes "valid_times items"
  shows "normalizeEvents now items =
         filter (\<lambda>e. type_ev e \<noteq> ''progress_update'' \<or> retained now items e) items"
  using assms by (rule normalizeEvents_valid)

text \<open>
  An instance at \<open>now = 20000\<close>: the update stamped 1000 is older than the call
  stamped 2000 and goes, the update stamped 5000 is exactly 15 seconds old and stays,
  the update stamped 4999 is older than 15 seconds and goes.
\<close>

theorem normalizeEvents_retention_witness:
  "valid_times
     [sample ''c'' ''tool_call'' ''A'' (Some 2000), progress_at ''p1'' 1000,
      progress_at ''p2'' 5000, progress_at ''p3'' 4999]
   \<and> normalizeEvents 20000
     [sample ''c'' ''tool_call'' ''A'' (Some 2000), progress_at ''p1'' 1000,
      progress_at ''p2'' 5000, progress_at ''p3'' 4999]
   = [sample ''c'' ''tool_call'' ''A'' (Some 2000), progress_at ''p2'' 5000]"
  (is "valid_times ?items \<and> normalizeEvents 20000 ?items = ?out")
proof -
  have v: "valid_times ?items"
    by (simp add: valid_times_def sample_def progress_at_def)
  have "normalizeEvents 20000 ?items =
        filter (\<lambda>e. type_ev e \<noteq> ''progress_update'' \<or> retained 20000 ?items e) ?items"
    using v by (rule normalizeEvents_retention)
  also have "\<dots> = ?out"
    by (simp add: retained_def nonprogress_all_def sample_def progress_at_def)
  finally show ?thesis using v by simp
qed

text \<open>
  The rule with the age strictly below 15 seconds fails at the boundary: a lone
  \<open>progress_update\<close> stamped 1000000, read at 1015000, is exactly 15 seconds old; the
  filter keeps it and the strict rule drops it.
\<close>

theorem normalizeEvents_strict_age_counterexample:
  "progress_at ''p1'' 1000000 \<in> set (normalizeEvents 1015000 [progress_at ''p1'' 1000000])
   \<and> \<not> retained_spec 1015000 [progress_at ''p1'' 1000000] (progress_at ''p1'' 1000000)"
  by (simp add: normalizeEvents_def latestNonProgress_def keep_event_def getTime_def
      retained_spec_def nonprogress_all_def progress_at_def sample_def)

text \<open>
  Two cases at the edge of the rule. An event stamped at the epoch itself does not
  supersede an older \<open>progress_update\<close>, since the maximum 0 reads as absent; and a
  \<open>progress_update\<close> with an invalid \<open>Date\<close> passes both tests, since every
  comparison with \<open>NaN\<close> is false.
\<close>

lemma normalizeEvents_epoch_example:
  "normalizeEvents 10 [sample ''m'' ''message'' ''A'' (Some 0), progress_at ''p'' (- 5)]
   = [sample ''m'' ''message'' ''A'' (Some 0), progress_at ''p'' (- 5)]"
  by (simp add: normalizeEvents_def latestNonProgress_def keep_event_def getTime_def
      progress_at_def sample_def)

lemma normalizeEvents_invalid_date_example:
  "normalizeEvents 20000
     [sample ''m'' ''message'' ''A'' (Some 2000), sample ''p'' ''progress_update'' ''A'' None]
   = [sample ''m'' ''message'' ''A'' (Some 2000), sample ''p'' ''progress_update'' ''A'' None]"
  by (simp add: normalizeEvents_def latestNonProgress_def keep_event_def getTime_def
      sample_def)

text \<open>
  C3, as the code has it. The filter does not limit the \<open>progress_update\<close> events it
  keeps to one. For events with valid timestamps, the \<open>progress_update\<close> events of
  its output are exactly, in input order, the \<open>progress_update\<close> events of the input
  that pass the retention rule (timestamp at least \<open>M\<close>, a test that is passed when no
  other event has a time value above 0, and age at most 15 seconds), and their number is
  the number of these. When the list holds \<open>progress_update\<close> events only, the output
  is the list of those at most 15 seconds old.
\<close>

theorem normalizeEvents_progress_kept:
  assumes "valid_times items"
  shows "filter (\<lambda>e. type_ev e = ''progress_update'') (normalizeEvents now items)
         = filter (\<lambda>e. type_ev e = ''progress_update'' \<and> retained now items e) items
       \<and> progress_count (normalizeEvents now items)
         = length (filter (\<lambda>e. type_ev e = ''progress_update'' \<and> retained now items e) items)
       \<and> (list_all (\<lambda>e. type_ev e = ''progress_update'') items
            \<longrightarrow> normalizeEvents now items = filter (fresh now) items)"
proof -
  have f: "filter (\<lambda>e. type_ev e = ''progress_update'') (normalizeEvents now items)
         = filter (\<lambda>e. type_ev e = ''progress_update'' \<and> retained now items e) items"
    unfolding normalizeEvents_valid[OF assms] filter_filter
    by (rule filter_cong) auto
  then have c: "progress_count (normalizeEvents now items)
         = length (filter (\<lambda>e. type_ev e = ''progress_update'' \<and> retained now items e) items)"
    by (simp add: progress_count_def)
  have p: "normalizeEvents now items = filter (fresh now) items"
    if all: "list_all (\<lambda>e. type_ev e = ''progress_update'') items"
  proof -
    have np: "nonprogress_all P items" for P
      using all by (simp add: nonprogress_all_def list_all_iff)
    show ?thesis
      unfolding normalizeEvents_valid[OF assms]
    proof (rule filter_cong[OF refl])
      fix e assume "e \<in> set items"
      with all have "type_ev e = ''progress_update''" by (simp add: list_all_iff)
      then show "(type_ev e \<noteq> ''progress_update'' \<or> retained now items e) = fresh now e"
        by (simp add: retained_def fresh_def np split: option.splits)
    qed
  qed
  from f c p show ?thesis by blast
qed

text \<open>
  An instance at \<open>now = 1001000\<close>: of three \<open>progress_update\<close> events and nothing
  else, the two stamped 1000000 are one second old and both stay; the one stamped 900000
  is older than 15 seconds and goes.
\<close>

theorem normalizeEvents_progress_kept_witness:
  "valid_times
     [progress_at ''p1'' 1000000, progress_at ''p2'' 1000000, progress_at ''p3'' 900000]
   \<and> list_all (\<lambda>e. type_ev e = ''progress_update'')
     [progress_at ''p1'' 1000000, progress_at ''p2'' 1000000, progress_at ''p3'' 900000]
   \<and> normalizeEvents 1001000
     [progress_at ''p1'' 1000000, progress_at ''p2'' 1000000, progress_at ''p3'' 900000]
     = [progress_at ''p1'' 1000000, progress_at ''p2'' 1000000]"
  (is "valid_times ?items \<and> list_all ?P ?items \<and> normalizeEvents 1001000 ?items = ?out")
proof -
  have v: "valid_times ?items"
    by (simp add: valid_times_def sample_def progress_at_def)
  have a: "list_all ?P ?items"
    by (simp add: sample_def progress_at_def)
  have "list_all ?P ?items \<longrightarrow> normalizeEvents 1001000 ?items = filter (fresh 1001000) ?items"
    using normalizeEvents_progress_kept[OF v, of 1001000] by (elim conjE)
  with a have "normalizeEvents 1001000 ?items = filter (fresh 1001000) ?items"
    by (rule rev_mp)
  also have "\<dots> = ?out"
    by (simp add: fresh_def sample_def progress_at_def)
  finally show ?thesis using v a by blast
qed

text \<open>
  The bound of one fails: two \<open>progress_update\<close> events with the same timestamp, one
  second old and with no other event around, are both kept.
\<close>

theorem normalizeEvents_two_progress_counterexample:
  "\<not> progress_count (normalizeEvents 1001000
        [progress_at ''p1'' 1000000, progress_at ''p2'' 1000000]) \<le> 1"
  by (simp add: normalizeEvents_def latestNonProgress_def keep_event_def getTime_def
      progress_at_def sample_def progress_count_def)

text \<open>
  C7. The spec's example: for a tool call of agent \<open>A\<close>, a \<open>progress_update\<close>
  stamped at 0 and a tool output of the same agent, read at 100 ms, with one of the
  two tool events stamped later than 0, the staleness filter drops the
  \<open>progress_update\<close>, and the pipeline of staleness filter, runner-event filter and
  grouping yields the single group of the call and its output.
\<close>

theorem example_grouped_display:
  assumes "type_ev tc = ''tool_call''" and "type_ev pu = ''progress_update''"
    and "type_ev out = ''tool_output''" and "agent out = agent tc"
    and "timestamp tc = Some t1" and "timestamp pu = Some 0" and "timestamp out = Some t2"
    and "0 < t1 \<or> 0 < t2"
  shows "normalizeEvents 100 [tc, pu, out] = [tc, out]
         \<and> grouped_display 100 [tc, pu, out] = [[tc, out]]"
proof -
  have L: "latestNonProgress [tc, pu, out] = Some (max (max 0 t1) t2)"
    using assms by (simp add: latestNonProgress_def getTime_def)
  have n: "normalizeEvents 100 [tc, pu, out] = [tc, out]"
    using assms by (auto simp: normalizeEvents_def L keep_event_def getTime_def)
  have "runnerEvents [tc, out] = [tc, out]"
    using assms by (simp add: runnerEvents_def)
  then show ?thesis using assms n by (simp add: grouped_display_def)
qed

theorem example_grouped_display_witness:
  "grouped_display 100 [example_call, example_progress, example_output]
   = [[example_call, example_output]]"
proof -
  have "normalizeEvents 100 [example_call, example_progress, example_output]
          = [example_call, example_output]
        \<and> grouped_display 100 [example_call, example_progress, example_output]
          = [[example_call, example_output]]"
  proof (rule example_grouped_display)
    show "type_ev example_call = ''tool_call''" by (simp add: example_call_def sample_def)
    show "type_ev example_progress = ''progress_update''"
      by (simp add: example_progress_def progress_at_def sample_def)
    show "type_ev example_output = ''tool_output''" by (simp add: example_output_def)
    show "agent example_output = agent example_call"
      by (simp add: example_output_def example_call_def sample_def)
    show "timestamp example_call = Some 0" by (simp add: example_call_def sample_def)
    show "timestamp example_progress = Some 0"
      by (simp add: example_progress_def progress_at_def sample_def)
    show "timestamp example_output = Some 50" by (simp add: example_output_def)
    show "(0::int) < 0 \<or> (0::int) < 50" by simp
  qed
  then show ?thesis by (rule conjunct2)
qed

section \<open>Properties of the delta channel\<close>

text \<open>
  C2. Delivery of a delta batch is idempotent. For every client state, and so for every
  known event sequence, and for every \<open>runner_event_delta\<close> effect, and so for every
  batch, delivering the effect again gives the state that delivering it once gives: no
  event is duplicated and the order does not change. The code has this because
  \<open>Home\<close> gives \<open>ChatKitPanel\<close> no \<open>onRunnerEventDelta\<close> callback, so that a
  delivery leaves the client state as it was.
\<close>

theorem delta_delivery_leaves_state:
  assumes "name_e eff = ''runner_event_delta''"
  shows "onEffect Home_props d eff st = st
         \<and> onEffect Home_props d' eff (onEffect Home_props d eff st)
           = onEffect Home_props d eff st"
  using assms by (simp add: onEffect_def Home_props_def)

theorem delta_delivery_leaves_state_witness:
  "name_e (delta_effect example_batch) = ''runner_event_delta''
   \<and> (onEffect Home_props None (delta_effect example_batch) bound_state = bound_state
      \<and> onEffect Home_props None (delta_effect example_batch)
          (onEffect Home_props None (delta_effect example_batch) bound_state)
        = onEffect Home_props None (delta_effect example_batch) bound_state)"
proof -
  have n: "name_e (delta_effect example_batch) = ''runner_event_delta''"
    by (simp add: delta_effect_def)
  from n delta_delivery_leaves_state[OF n, of None bound_state None]
  show ?thesis by (rule conjI)
qed

section \<open>Properties of the snapshot reads\<close>

text \<open>
  C5, as the code has it. When the state read for a thread id is answered with a
  non-OK status (the thread is unknown), \<open>fetchThreadState\<close> yields \<open>null\<close> and
  \<open>hydrateState\<close> returns: the one request it sends is the state read, it sends no
  bootstrap read, and the client state, its thread binding included, is as before.
\<close>

theorem hydrate_not_found_no_fallback:
  assumes "server (GetState i) = Response False b" and "i \<noteq> []"
  shows "fetchThreadState server i = Resolved None
         \<and> hydrateState server clock clock_gc (Some i) st = (st, [GetState i])
         \<and> GetBootstrap \<notin> set (snd (hydrateState server clock clock_gc (Some i) st))
         \<and> threadId (fst (hydrateState server clock clock_gc (Some i) st)) = threadId st"
  using assms by (simp add: fetchThreadState_def hydrateState_def or_null_def)

theorem hydrate_not_found_no_fallback_witness:
  "unknown_thread_server (GetState ''t1'') = Response False (Json None) \<and> ''t1'' \<noteq> []
   \<and> (fetchThreadState unknown_thread_server ''t1'' = Resolved None
      \<and> hydrateState unknown_thread_server (fixed_clock 0) (fixed_clock 0) (Some ''t1'')
          bound_state
        = (bound_state, [GetState ''t1'']))"
proof -
  have a: "unknown_thread_server (GetState ''t1'') = Response False (Json None)" by simp
  have b: "''t1'' \<noteq> []" by simp
  note h = hydrate_not_found_no_fallback[where server = unknown_thread_server and i = "''t1''"
      and b = "Json None" and clock = "fixed_clock 0" and clock_gc = "fixed_clock 0"
      and st = bound_state, OF a b]
  from a b h show ?thesis by blast
qed

text \<open>
  A client bound to thread \<open>t1\<close> whose state read is answered with 404: it sends no
  bootstrap read, though the server would answer one, and stays bound to \<open>t1\<close>.
\<close>

theorem hydrate_fallback_counterexample:
  "GetBootstrap \<notin> set (snd (hydrateState unknown_thread_server (fixed_clock 0)
                               (fixed_clock 0) (threadId bound_state) bound_state))
   \<and> threadId (fst (hydrateState unknown_thread_server (fixed_clock 0) (fixed_clock 0)
                      (threadId bound_state) bound_state)) = Some ''t1''"
  by (simp add: hydrateState_def fetchThreadState_def or_null_def bound_state_def)

lemma map_snd_enumerate_comp: "map (\<lambda>p. f (snd p)) (enumerate n es) = map f es"
  by (induction es arbitrary: n) auto

lemma withDates_id_ev: "map id_ev (withDates clock es) = map id_ev es"
proof -
  have "map id_ev (withDates clock es) = map (\<lambda>p. id_ev (snd p)) (enumerate 0 es)"
    by (simp add: withDates_def withDate_def case_prod_unfold)
  then show ?thesis by (simp only: map_snd_enumerate_comp)
qed








text \<open>
  C10. When the state read or the bootstrap read fails, by a network error or a non-OK
  status, the fetch function yields \<open>null\<close> and the caller leaves the client state as
  it was: current agent, context, agents, events, guardrails and thread ids.
\<close>

theorem failed_fetch_leaves_state:
  "(server (GetState i) = NetworkError \<or> (\<exists>b. server (GetState i) = Response False b)
      \<longrightarrow> fetchThreadState server i = Resolved None
          \<and> fst (hydrateState server clock clock_gc (Some i) st) = st)
   \<and> (server GetBootstrap = NetworkError \<or> (\<exists>b. server GetBootstrap = Response False b)
      \<longrightarrow> fetchBootstrapState server = Resolved None
          \<and> fst (bootstrap_effect server clock now clock_gc st) = st)"
proof (intro conjI impI)
  assume a: "server (GetState i) = NetworkError \<or> (\<exists>b. server (GetState i) = Response False b)"
  then show f: "fetchThreadState server i = Resolved None"
    by (auto simp: fetchThreadState_def)
  show "fst (hydrateState server clock clock_gc (Some i) st) = st"
    using f by (simp add: hydrateState_def or_null_def)
next
  assume a: "server GetBootstrap = NetworkError \<or> (\<exists>b. server GetBootstrap = Response False b)"
  then show f: "fetchBootstrapState server = Resolved None"
    by (auto simp: fetchBootstrapState_def)
  show "fst (bootstrap_effect server clock now clock_gc st) = st"
    using f by (simp add: bootstrap_effect_def)
qed

theorem failed_fetch_leaves_state_witness:
  "failing_server (GetState ''t1'') = NetworkError
   \<and> failing_server GetBootstrap = Response False Unparsable
   \<and> fetchThreadState failing_server ''t1'' = Resolved None
   \<and> fst (hydrateState failing_server (fixed_clock 0) (fixed_clock 0) (Some ''t1'')
            bound_state) = bound_state
   \<and> fetchBootstrapState failing_server = Resolved None
   \<and> fst (bootstrap_effect failing_server (fixed_clock 0) 0 (fixed_clock 0) bound_state)
     = bound_state"
proof -
  have a: "failing_server (GetState ''t1'') = NetworkError" by simp
  have b: "failing_server GetBootstrap = Response False Unparsable" by simp
  note h = failed_fetch_leaves_state[where server = failing_server and i = "''t1''"
      and clock = "fixed_clock 0" and clock_gc = "fixed_clock 0" and st = bound_state
      and now = 0]
  from a b h show ?thesis by blast
qed

section \<open>Properties of the engine's tool call\<close>















end
